theory Spec2Isabelle
  imports Main
begin

section \<open>SmartInput: the key-event state machine of main.py\<close>

text \<open>
  The development embeds the decision logic of \<^verbatim>\<open>main.py\<close>: the chunking of a pinyin
  string and the candidate lookup (\<^verbatim>\<open>simple_seg\<close>, \<^verbatim>\<open>get_top_candidates\<close>), the
  classifier (\<^verbatim>\<open>is_pinyin_sequence_prefix\<close>) and the two keyboard callbacks
  (\<^verbatim>\<open>on_press\<close>, \<^verbatim>\<open>on_release\<close>) acting on the module's global variables.

  Conventions of the embedding.
  \<^item> A character of Python text is a \<open>pychar\<close>: a code point of the Latin-1 range (0 to
    255, a \<^typ>\<open>char\<close> read as the code point of the same number; it holds the Latin
    letters and \<^verbatim>\<open>u-umlaut\<close>, code point 252), or U+0130, the capital I with a dot above,
    or U+0307, the combining dot above. U+0130 is a letter whose lower-case form is the
    two characters i and U+0307, the second of which is not a letter; it is there so that
    the test \<^verbatim>\<open>all(c.isalpha() for c in text.lower())\<close> of the classifier can fail on a
    text of letters. \<^verbatim>\<open>str.isalpha\<close>, \<^verbatim>\<open>str.isdigit\<close> and \<^verbatim>\<open>str.lower\<close> are written
    out for these characters.
  \<^item> A candidate is text produced by the Pinyin2Hanzi library (Hanzi), a list of code
    points of type \<^typ>\<open>nat\<close>; committed output has the same type.
  \<^item> The library function \<^verbatim>\<open>dag\<close> is not part of the repository: it is a parameter of
    the model, a function from the chunk list and \<^verbatim>\<open>path_num\<close> to either an exception or
    the list of result items.
  \<^item> The global variables form the record \<open>state\<close>. The queue \<^verbatim>\<open>ui_queue\<close> is the list
    of messages put so far (oldest first); the calls of the tray updater and the
    committed texts that are printed are logged in two further lists.
\<close>

subsection \<open>Characters and strings of Python\<close>

datatype pychar = Latin1 char | Capital_I_dot | Combining_dot

type_synonym pystr = "pychar list"

text \<open>A literal of the Latin-1 range.\<close>

definition lit :: "string \<Rightarrow> pystr" where
  "lit s = map Latin1 s"

fun code_point :: "pychar \<Rightarrow> nat" where
  "code_point (Latin1 c) = of_char c"
| "code_point Capital_I_dot = 304"
| "code_point Combining_dot = 775"

type_synonym ustr = "nat list"

text \<open>A buffer of typed characters seen as the code points of its text.\<close>

definition ustr_of :: "pystr \<Rightarrow> ustr" where
  "ustr_of s = map code_point s"

text \<open>\<^verbatim>\<open>c.isalpha()\<close> for a code point below 256: the categories Lu, Ll and Lo there.\<close>

definition isalpha_latin1 :: "char \<Rightarrow> bool" where
  "isalpha_latin1 c =
     (let n = (of_char c :: nat) in
        (65 \<le> n \<and> n \<le> 90) \<or> (97 \<le> n \<and> n \<le> 122) \<or> n = 170 \<or> n = 181 \<or> n = 186 \<or>
        (192 \<le> n \<and> n \<le> 214) \<or> (216 \<le> n \<and> n \<le> 246) \<or> (248 \<le> n \<and> n \<le> 255))"

text \<open>\<^verbatim>\<open>c.isalpha()\<close>: U+0130 is an upper-case letter, U+0307 a non-spacing mark.\<close>

fun isalpha_c :: "pychar \<Rightarrow> bool" where
  "isalpha_c (Latin1 c) = isalpha_latin1 c"
| "isalpha_c Capital_I_dot = True"
| "isalpha_c Combining_dot = False"

text \<open>\<^verbatim>\<open>c.lower()\<close> for a code point below 256: the upper-case letters move up by 32.\<close>

definition lower_latin1 :: "char \<Rightarrow> char" where
  "lower_latin1 c =
     (let n = (of_char c :: nat) in
        if (65 \<le> n \<and> n \<le> 90) \<or> (192 \<le> n \<and> n \<le> 214) \<or> (216 \<le> n \<and> n \<le> 222)
        then char_of (n + 32) else c)"

text \<open>\<^verbatim>\<open>c.lower()\<close>, a text: one character, but i followed by U+0307 for U+0130.\<close>

fun lower_c :: "pychar \<Rightarrow> pystr" where
  "lower_c (Latin1 c) = [Latin1 (lower_latin1 c)]"
| "lower_c Capital_I_dot = [Latin1 CHR ''i'', Combining_dot]"
| "lower_c Combining_dot = [Combining_dot]"

text \<open>\<^verbatim>\<open>text.lower()\<close>\<close>

definition lower_s :: "pystr \<Rightarrow> pystr" where
  "lower_s text = concat (map lower_c text)"

text \<open>\<^verbatim>\<open>c.isdigit()\<close> for a code point below 256: the ASCII digits and superscripts 1, 2, 3.\<close>

definition isdigit_latin1 :: "char \<Rightarrow> bool" where
  "isdigit_latin1 c =
     (let n = (of_char c :: nat) in (48 \<le> n \<and> n \<le> 57) \<or> n = 178 \<or> n = 179 \<or> n = 185)"

fun isdigit_c :: "pychar \<Rightarrow> bool" where
  "isdigit_c (Latin1 c) = isdigit_latin1 c"
| "isdigit_c Capital_I_dot = False"
| "isdigit_c Combining_dot = False"

text \<open>\<^verbatim>\<open>int(ch)\<close> on an ASCII digit.\<close>

definition int_of_digit :: "pychar \<Rightarrow> int" where
  "int_of_digit c = int (code_point c) - 48"

text \<open>The slice \<^verbatim>\<open>xs[:k]\<close>: a negative bound counts from the end.\<close>

definition slice_to :: "int \<Rightarrow> 'a list \<Rightarrow> 'a list" where
  "slice_to k xs = (if 0 \<le> k then take (nat k) xs else take (nat (int (length xs) + k)) xs)"

subsection \<open>Candidate lookup\<close>

datatype dag_error = DagException

text \<open>A result item of \<^verbatim>\<open>dag\<close>; only its \<^verbatim>\<open>path\<close> is read.\<close>

datatype dag_item = DagItem (path: "ustr list")

type_synonym dag_fn = "pystr list \<Rightarrow> int \<Rightarrow> dag_error + dag_item list"

text \<open>The \<^verbatim>\<open>while i < len(pinyin_str)\<close> loop of \<^verbatim>\<open>simple_seg\<close>, on the index \<open>i\<close> and
  the list built so far.\<close>

function seg_loop :: "pystr \<Rightarrow> nat \<Rightarrow> pystr list \<Rightarrow> pystr list" where
  "seg_loop pinyin_str i pinyin_list =
     (if i < length pinyin_str then
        (if i + 2 \<le> length pinyin_str
         then seg_loop pinyin_str (i + 2) (pinyin_list @ [take 2 (drop i pinyin_str)])
         else seg_loop pinyin_str (i + 1) (pinyin_list @ [[pinyin_str ! i]]))
      else pinyin_list)"
  by pat_completeness auto
termination
  by (relation "measure (\<lambda>(s, i, acc). length s - i)") auto

declare seg_loop.simps [simp del]

definition simple_seg :: "dag_fn \<Rightarrow> pystr \<Rightarrow> int \<Rightarrow> ustr list" where
  "simple_seg dag pinyin_str top_k =
     (if pinyin_str = [] then []
      else (case dag (seg_loop pinyin_str 0 []) top_k of
              Inl e \<Rightarrow> []
            | Inr result \<Rightarrow> slice_to top_k (map (\<lambda>item. concat (path item)) result)))"

definition get_top_candidates :: "dag_fn \<Rightarrow> pystr \<Rightarrow> int \<Rightarrow> ustr list" where
  "get_top_candidates dag pinyin top_k = simple_seg dag pinyin top_k"

text \<open>The chunking as the specification words it: chunks of two characters from the left,
  and a last chunk of one character when the length is odd.\<close>

fun spec_chunks :: "pystr \<Rightarrow> pystr list" where
  "spec_chunks (a # b # rest) = [a, b] # spec_chunks rest"
| "spec_chunks [a] = [[a]]"
| "spec_chunks [] = []"

subsection \<open>The classifier\<close>

text \<open>\<^verbatim>\<open>set('bpmfdztnlgkhjqxzcs')\<close> and \<^verbatim>\<open>set('aeiou...v')\<close>: sets of texts of one character.\<close>

definition valid_initials :: "pystr set" where
  "valid_initials = set (map (\<lambda>c. [c]) (lit ''bpmfdztnlgkhjqxzcs''))"

definition valid_finals :: "pystr set" where
  "valid_finals = set (map (\<lambda>c. [c]) (lit (''aeiou'' @ [CHR 0xFC] @ ''v'')))"

definition is_pinyin_sequence_prefix :: "pystr \<Rightarrow> bool" where
  "is_pinyin_sequence_prefix text =
     (if text = [] then False
      else if \<not> list_all isalpha_c (lower_s text) then False
      else (let first_char = lower_c (hd text) in
              if first_char \<notin> valid_initials \<and> first_char \<notin> valid_finals then False
              else True))"

subsection \<open>State, keys and the two callbacks\<close>

datatype mode = Unknown | Pinyin | English

record UIState =
  visible :: bool
  buffer :: pystr
  candidates :: "ustr list"

record state =
  current_mode :: mode
  input_buffer :: pystr
  raw_input_buffer :: pystr
  current_candidates :: "ustr list"
  ctrl_pressed :: bool
  shift_pressed :: bool
  ui_queue :: "UIState list"
  stop_event :: bool
  tray_updates :: "mode list"
  printed :: "ustr list"

definition initial_state :: state where
  "initial_state =
     \<lparr>current_mode = Unknown, input_buffer = [], raw_input_buffer = [],
      current_candidates = [], ctrl_pressed = False, shift_pressed = False,
      ui_queue = [], stop_event = False, tray_updates = [], printed = []\<rparr>"

text \<open>A key of pynput: a \<^verbatim>\<open>KeyCode\<close> with its \<^verbatim>\<open>char\<close> (which may be \<^verbatim>\<open>None\<close>), or a
  member of the enumeration \<^verbatim>\<open>Key\<close>.\<close>

datatype key =
    KeyCode "pychar option"
  | Key_ctrl | Key_ctrl_l | Key_ctrl_r
  | Key_shift | Key_shift_l | Key_shift_r
  | Key_backspace | Key_esc | Key_space | Key_enter
  | Key_other

text \<open>\<^verbatim>\<open>try: ch = key.char except AttributeError: ch = None\<close>\<close>

fun key_char :: "key \<Rightarrow> pychar option" where
  "key_char (KeyCode ch) = ch"
| "key_char _ = None"

text \<open>What a callback returns: \<^verbatim>\<open>None\<close>, or \<^verbatim>\<open>False\<close>, which stops the listener.\<close>

datatype ret = RetNone | RetFalse

text \<open>Case 0 of \<^verbatim>\<open>on_press\<close>: a shift key.\<close>

definition press_shift :: "state \<Rightarrow> ret \<times> state" where
  "press_shift s =
     (let s1 = s\<lparr>shift_pressed := True\<rparr> in
      if \<not> ctrl_pressed s1 then (RetNone, s1)
      else
        (let m = (if current_mode s1 = Pinyin then English
                  else if current_mode s1 = English then Pinyin
                  else Pinyin)
         in (RetNone,
             s1\<lparr>current_mode := m, input_buffer := [], raw_input_buffer := [],
                current_candidates := [],
                ui_queue := ui_queue s1 @ [\<lparr>visible = (m = Pinyin), buffer = [], candidates = []\<rparr>],
                tray_updates := tray_updates s1 @ [m]\<rparr>)))"

text \<open>Case 1 of \<^verbatim>\<open>on_press\<close>: backspace, once \<^verbatim>\<open>current_mode == "pinyin" and input_buffer\<close>
  holds. When it does not hold, the key falls through the remaining cases of \<^verbatim>\<open>on_press\<close>,
  none of which applies to it.\<close>

definition press_backspace :: "dag_fn \<Rightarrow> state \<Rightarrow> ret \<times> state" where
  "press_backspace dag s =
     (let s1 = s\<lparr>input_buffer := butlast (input_buffer s),
                 raw_input_buffer := butlast (raw_input_buffer s)\<rparr>;
          prev_mode = current_mode s1;
          s2 = (if input_buffer s1 \<noteq> [] then
                  (if is_pinyin_sequence_prefix (input_buffer s1)
                   then s1\<lparr>current_mode := Pinyin\<rparr>
                   else s1\<lparr>current_mode := English\<rparr>)
                else s1\<lparr>current_mode := Unknown\<rparr>);
          s3 = (if current_mode s2 \<noteq> prev_mode \<and> current_mode s2 \<in> {Pinyin, English}
                then s2\<lparr>tray_updates := tray_updates s2 @ [current_mode s2]\<rparr> else s2)
      in
        if current_mode s3 = Pinyin then
          (let cands = get_top_candidates dag (input_buffer s3) 5 in
           (RetNone,
            s3\<lparr>current_candidates := cands,
               ui_queue := ui_queue s3 @
                 [\<lparr>visible = True, buffer = input_buffer s3, candidates = cands\<rparr>]\<rparr>))
        else
          (RetNone,
           s3\<lparr>current_candidates := [],
              ui_queue := ui_queue s3 @
                [\<lparr>visible = False, buffer = input_buffer s3, candidates = []\<rparr>]\<rparr>))"

text \<open>Case 3 of \<^verbatim>\<open>on_press\<close>: a key whose character is a letter.\<close>

definition press_letter :: "dag_fn \<Rightarrow> state \<Rightarrow> pychar \<Rightarrow> ret \<times> state" where
  "press_letter dag s ch =
     (let s1 = s\<lparr>raw_input_buffer := raw_input_buffer s @ [ch]\<rparr>;
          prev_mode = current_mode s1;
          s2 = (if is_pinyin_sequence_prefix (raw_input_buffer s1)
                then s1\<lparr>current_mode := Pinyin, input_buffer := raw_input_buffer s1\<rparr>
                else s1\<lparr>current_mode := English, input_buffer := raw_input_buffer s1\<rparr>);
          s3 = (if current_mode s2 \<noteq> prev_mode \<and> current_mode s2 \<in> {Pinyin, English}
                then s2\<lparr>tray_updates := tray_updates s2 @ [current_mode s2]\<rparr> else s2)
      in
        if current_mode s3 = Pinyin then
          (let cands = get_top_candidates dag (input_buffer s3) 5 in
           (RetNone,
            s3\<lparr>current_candidates := cands,
               ui_queue := ui_queue s3 @
                 [\<lparr>visible = True, buffer = input_buffer s3, candidates = cands\<rparr>]\<rparr>))
        else
          (RetNone,
           s3\<lparr>current_candidates := [],
              ui_queue := ui_queue s3 @
                [\<lparr>visible = False, buffer = input_buffer s3, candidates = []\<rparr>]\<rparr>))"

text \<open>The block shared by cases 4 and 5: print the output, clear the buffers, reset the
  mode and hide the popup.\<close>

definition commit :: "state \<Rightarrow> ustr \<Rightarrow> state" where
  "commit s output =
     s\<lparr>printed := printed s @ [output],
       input_buffer := [], raw_input_buffer := [], current_candidates := [],
       current_mode := Unknown,
       ui_queue := ui_queue s @ [\<lparr>visible = False, buffer = [], candidates = []\<rparr>]\<rparr>"

text \<open>Case 4 of \<^verbatim>\<open>on_press\<close>: space or enter.\<close>

definition press_space_enter :: "state \<Rightarrow> ret \<times> state" where
  "press_space_enter s =
     (if input_buffer s \<noteq> [] then
        (let output = (if current_mode s = Pinyin then
                         (if current_candidates s \<noteq> [] then current_candidates s ! 0
                          else ustr_of (input_buffer s))
                       else ustr_of (input_buffer s))
         in (RetNone, commit s output))
      else (RetNone, s))"

text \<open>Case 5 of \<^verbatim>\<open>on_press\<close>: a character among \<^verbatim>\<open>'12345'\<close>. The function ends after it, so
  every path that does not commit returns \<^verbatim>\<open>None\<close> with the state as it was.\<close>

definition press_digit :: "state \<Rightarrow> pychar \<Rightarrow> ret \<times> state" where
  "press_digit s ch =
     (if current_mode s = Pinyin \<and> current_candidates s \<noteq> [] then
        (let idx = int_of_digit ch - 1 in
         if idx < int (length (current_candidates s))
         then (RetNone, commit s (current_candidates s ! nat idx))
         else (RetNone, s))
      else (RetNone, s))"

definition on_press :: "dag_fn \<Rightarrow> state \<Rightarrow> key \<Rightarrow> ret \<times> state" where
  "on_press dag s key =
     (let ch = key_char key in
      if key \<in> {Key_ctrl, Key_ctrl_l, Key_ctrl_r} then (RetNone, s\<lparr>ctrl_pressed := True\<rparr>)
      else if key = Key_shift \<or> key = Key_shift_l \<or> key = Key_shift_r then press_shift s
      else if key = Key_backspace \<and> current_mode s = Pinyin \<and> input_buffer s \<noteq> []
        then press_backspace dag s
      else if key = Key_esc then (RetFalse, s\<lparr>stop_event := True\<rparr>)
      else if (case ch of Some c \<Rightarrow> isalpha_c c | None \<Rightarrow> False)
        then press_letter dag s (the ch)
      else if key \<in> {Key_space, Key_enter} then press_space_enter s
      else if (case ch of Some c \<Rightarrow> isdigit_c c \<and> c \<in> set (lit ''12345'') | None \<Rightarrow> False)
        then press_digit s (the ch)
      else (RetNone, s))"

definition on_release :: "state \<Rightarrow> key \<Rightarrow> ret \<times> state" where
  "on_release s key =
     (if key \<in> {Key_ctrl, Key_ctrl_l, Key_ctrl_r} then (RetNone, s\<lparr>ctrl_pressed := False\<rparr>)
      else if key \<in> {Key_shift, Key_shift_l, Key_shift_r}
        then (RetNone, s\<lparr>shift_pressed := False\<rparr>)
      else if key = Key_esc then (RetFalse, s\<lparr>stop_event := True\<rparr>)
      else (RetNone, s))"

subsection \<open>Runs of the listener\<close>

datatype event = Press key | Release key

fun handle :: "dag_fn \<Rightarrow> state \<Rightarrow> event \<Rightarrow> ret \<times> state" where
  "handle dag s (Press k) = on_press dag s k"
| "handle dag s (Release k) = on_release s k"

text \<open>The listener delivers the events one after the other and stops at the first callback
  that returns \<^verbatim>\<open>False\<close>.\<close>

fun run :: "dag_fn \<Rightarrow> state \<Rightarrow> event list \<Rightarrow> state" where
  "run dag s [] = s"
| "run dag s (e # es) =
     (case handle dag s e of
        (RetFalse, s') \<Rightarrow> s'
      | (RetNone, s') \<Rightarrow> run dag s' es)"

text \<open>A stand-in for the library in concrete runs: two candidates for \<^verbatim>\<open>ni\<close>, one for
  \<^verbatim>\<open>n\<close>, an exception for anything else.\<close>

definition demo_dag :: dag_fn where
  "demo_dag chunks path_num =
     (if chunks = [lit ''ni''] then Inr [DagItem [[20320]], DagItem [[23612]]]
      else if chunks = [lit ''n''] then Inr [DagItem [[21999]]]
      else Inl DagException)"

text \<open>The library that returns no path where \<open>dag\<close> raises, and what \<open>dag\<close> returns
  elsewhere.\<close>

definition sanitize :: "dag_fn \<Rightarrow> dag_fn" where
  "sanitize dag chunks path_num =
     (case dag chunks path_num of Inl e \<Rightarrow> Inr [] | Inr result \<Rightarrow> Inr result)"

text \<open>The invariant of the buffers carried through every run: the two buffers agree, they
  hold letters only, a non-empty buffer has the mode the classifier gives it, and
  candidates exist only in Pinyin mode with a non-empty buffer.\<close>

definition buffers_ok :: "state \<Rightarrow> bool" where
  "buffers_ok s =
     (input_buffer s = raw_input_buffer s \<and> list_all isalpha_c (input_buffer s) \<and>
      (input_buffer s \<noteq> [] \<longrightarrow>
         current_mode s =
           (if is_pinyin_sequence_prefix (input_buffer s) then Pinyin else English)) \<and>
      (current_candidates s \<noteq> [] \<longrightarrow> current_mode s = Pinyin \<and> input_buffer s \<noteq> []))"

section \<open>Auxiliary facts\<close>

lemmas eval_defs = initial_state_def on_press_def press_shift_def press_letter_def
  press_backspace_def press_space_enter_def press_digit_def commit_def on_release_def
  get_top_candidates_def simple_seg_def seg_loop.simps slice_to_def demo_dag_def
  is_pinyin_sequence_prefix_def lower_s_def lower_latin1_def isalpha_latin1_def
  isdigit_latin1_def int_of_digit_def valid_initials_def valid_finals_def ustr_of_def
  lit_def Let_def char_of_eq_iff

subsection \<open>Letters\<close>

lemma of_char_lt: "(of_char c :: nat) < 256"
  by (cases c) simp

lemma isalpha_lower_latin1: "isalpha_latin1 (lower_latin1 c) = isalpha_latin1 c"
proof -
  have b: "(of_char c :: nat) \<le> 255" using of_char_lt [of c] by linarith
  show ?thesis using b by (auto simp: isalpha_latin1_def lower_latin1_def Let_def)
qed

lemma alpha_lower_c: "list_all isalpha_c (lower_c c) = (isalpha_c c \<and> c \<noteq> Capital_I_dot)"
  by (cases c) (simp_all add: isalpha_lower_latin1)

lemma alpha_lower_s:
  "list_all isalpha_c (lower_s t) = (list_all isalpha_c t \<and> Capital_I_dot \<notin> set t)"
  by (induction t) (auto simp: lower_s_def alpha_lower_c)

lemma list_all_butlast: "list_all P xs \<Longrightarrow> list_all P (butlast xs)"
  by (induction xs) simp_all

lemma is_pinyin_alpha:
  "t \<noteq> [] \<Longrightarrow> list_all isalpha_c t \<Longrightarrow>
   is_pinyin_sequence_prefix t =
     (Capital_I_dot \<notin> set t \<and> lower_c (hd t) \<in> valid_initials \<union> valid_finals)"
  by (auto simp: is_pinyin_sequence_prefix_def alpha_lower_s)

lemma digit_facts:
  assumes "c \<in> set (lit ''0123456789'')"
  shows "\<not> isalpha_c c" and "isdigit_c c" and "0 \<le> int_of_digit c"
    and "(c \<in> set (lit ''12345'')) = (1 \<le> int_of_digit c \<and> int_of_digit c \<le> 5)"
  using assms
  by (auto simp: lit_def isalpha_latin1_def isdigit_latin1_def int_of_digit_def)

subsection \<open>The chunking loop\<close>

lemma seg_loop_spec: "i \<le> length s \<Longrightarrow> seg_loop s i acc = acc @ spec_chunks (drop i s)"
proof (induction s i acc rule: seg_loop.induct)
  case (1 s i acc)
  show ?case
  proof (cases "i < length s")
    case False
    with 1 show ?thesis by (simp add: seg_loop.simps)
  next
    case True
    show ?thesis
    proof (cases "i + 2 \<le> length s")
      case T2: True
      then obtain a b rest where d: "drop i s = a # b # rest"
        by (metis Cons_nth_drop_Suc Suc_le_eq add_2_eq_Suc' True)
      have "drop (i + 2) s = rest" using d
        by (metis add.commute drop_drop drop_Suc_Cons drop0 add_2_eq_Suc)
      with 1 True T2 d show ?thesis
        by (subst seg_loop.simps) simp
    next
      case F2: False
      with True have d: "drop i s = [s ! i]"
        by (metis Cons_nth_drop_Suc drop_all add_2_eq_Suc' not_less_eq_eq)
      with 1 True F2 show ?thesis
        by (subst seg_loop.simps) simp
    qed
  qed
qed

lemma length_slice_to: "0 \<le> k \<Longrightarrow> int (length (slice_to k xs)) \<le> k"
  by (simp add: slice_to_def)

lemma simple_seg_fail: "dag (seg_loop p 0 []) k = Inl e \<Longrightarrow> simple_seg dag p k = []"
  by (simp add: simple_seg_def)

lemma lookup_sanitize: "get_top_candidates (sanitize dag) p k = get_top_candidates dag p k"
  by (simp add: get_top_candidates_def simple_seg_def sanitize_def slice_to_def
        split: sum.splits)

subsection \<open>The cases of on_press\<close>

lemma on_press_ctrl:
  "key \<in> {Key_ctrl, Key_ctrl_l, Key_ctrl_r} \<Longrightarrow>
   on_press dag s key = (RetNone, s\<lparr>ctrl_pressed := True\<rparr>)"
  by (simp add: on_press_def)

lemma on_press_shift:
  "key \<in> {Key_shift, Key_shift_l, Key_shift_r} \<Longrightarrow> on_press dag s key = press_shift s"
  by (auto simp: on_press_def)

lemma on_press_backspace:
  "on_press dag s Key_backspace =
     (if current_mode s = Pinyin \<and> input_buffer s \<noteq> [] then press_backspace dag s
      else (RetNone, s))"
  by (simp add: on_press_def)

lemma on_press_esc: "on_press dag s Key_esc = (RetFalse, s\<lparr>stop_event := True\<rparr>)"
  by (simp add: on_press_def)

lemma on_press_space_enter:
  "key \<in> {Key_space, Key_enter} \<Longrightarrow> on_press dag s key = press_space_enter s"
  by (auto simp: on_press_def)

lemma on_press_other: "on_press dag s Key_other = (RetNone, s)"
  by (simp add: on_press_def)

lemma on_press_keycode:
  "on_press dag s (KeyCode ch) =
     (case ch of None \<Rightarrow> (RetNone, s)
      | Some c \<Rightarrow> if isalpha_c c then press_letter dag s c
                  else if isdigit_c c \<and> c \<in> set (lit ''12345'') then press_digit s c
                  else (RetNone, s))"
  by (auto simp: on_press_def split: option.splits)

lemma press_digit_eq:
  "press_digit s c =
     (if current_mode s = Pinyin \<and> current_candidates s \<noteq> [] \<and>
         int_of_digit c - 1 < int (length (current_candidates s))
      then (RetNone, commit s (current_candidates s ! nat (int_of_digit c - 1)))
      else (RetNone, s))"
  by (simp add: press_digit_def Let_def)

lemma commit_changes: "commit s out \<noteq> s"
proof
  assume "commit s out = s"
  then have "printed (commit s out) = printed s" by simp
  then show False by (simp add: commit_def)
qed

subsection \<open>The invariant along a run\<close>

lemma buffers_ok_initial: "buffers_ok initial_state"
  by (simp add: buffers_ok_def initial_state_def)

lemma buffers_ok_shift: "buffers_ok s \<Longrightarrow> buffers_ok (snd (press_shift s))"
  by (auto simp: buffers_ok_def press_shift_def Let_def)

lemma buffers_ok_commit: "buffers_ok (commit s out)"
  by (simp add: buffers_ok_def commit_def)

lemma buffers_ok_space_enter: "buffers_ok s \<Longrightarrow> buffers_ok (snd (press_space_enter s))"
  by (simp add: press_space_enter_def Let_def buffers_ok_commit)

lemma buffers_ok_digit: "buffers_ok s \<Longrightarrow> buffers_ok (snd (press_digit s c))"
  by (simp add: press_digit_def Let_def buffers_ok_commit)

lemma buffers_ok_letter:
  "buffers_ok s \<Longrightarrow> isalpha_c c \<Longrightarrow> buffers_ok (snd (press_letter dag s c))"
  by (auto simp: buffers_ok_def press_letter_def Let_def)

lemma buffers_ok_backspace: "buffers_ok s \<Longrightarrow> buffers_ok (snd (press_backspace dag s))"
  by (auto simp: buffers_ok_def press_backspace_def Let_def list_all_butlast)

lemma buffers_ok_on_press: "buffers_ok s \<Longrightarrow> buffers_ok (snd (on_press dag s key))"
proof (cases key)
  case (KeyCode ch)
  assume "buffers_ok s"
  then show ?thesis using KeyCode
    by (simp add: on_press_keycode buffers_ok_letter buffers_ok_digit split: option.splits)
qed (simp_all add: on_press_ctrl on_press_shift on_press_backspace on_press_esc
       on_press_space_enter on_press_other buffers_ok_shift buffers_ok_backspace
       buffers_ok_space_enter, auto simp: buffers_ok_def)

lemma buffers_ok_on_release: "buffers_ok s \<Longrightarrow> buffers_ok (snd (on_release s key))"
  by (auto simp: on_release_def buffers_ok_def)

lemma buffers_ok_handle: "buffers_ok s \<Longrightarrow> buffers_ok (snd (handle dag s e))"
  by (cases e) (simp_all add: buffers_ok_on_press buffers_ok_on_release)

lemma buffers_ok_run: "buffers_ok s \<Longrightarrow> buffers_ok (run dag s evs)"
proof (induction evs arbitrary: s)
  case Nil
  then show ?case by simp
next
  case (Cons e evs)
  have h: "buffers_ok (snd (handle dag s e))" using Cons.prems by (rule buffers_ok_handle)
  show ?case
  proof (cases "handle dag s e")
    case (Pair r s')
    with h have "buffers_ok s'" by simp
    with Pair Cons.IH [of s'] show ?thesis by (cases r) simp_all
  qed
qed

lemma buffers_ok_reachable: "buffers_ok (run dag initial_state evs)"
  by (rule buffers_ok_run [OF buffers_ok_initial])

subsection \<open>Exceptions of the library\<close>

lemma on_press_sanitize: "on_press (sanitize dag) s key = on_press dag s key"
  unfolding on_press_def press_letter_def press_backspace_def lookup_sanitize ..

lemma run_sanitize: "run (sanitize dag) s evs = run dag s evs"
proof (induction evs arbitrary: s)
  case Nil
  show ?case by simp
next
  case (Cons ev evs)
  have "handle (sanitize dag) s ev = handle dag s ev"
    by (cases ev) (simp_all add: on_press_sanitize)
  then show ?case using Cons.IH by (simp split: prod.splits ret.splits)
qed

lemma press_letter_failure:
  assumes "is_pinyin_sequence_prefix (raw_input_buffer s @ [c])"
    and "dag (seg_loop (raw_input_buffer s @ [c]) 0 []) 5 = Inl e"
  shows "press_letter dag s c =
     (RetNone,
      s\<lparr>raw_input_buffer := raw_input_buffer s @ [c], current_mode := Pinyin,
        input_buffer := raw_input_buffer s @ [c],
        tray_updates :=
          (if current_mode s = Pinyin then tray_updates s else tray_updates s @ [Pinyin]),
        current_candidates := [],
        ui_queue := ui_queue s @
          [\<lparr>visible = True, buffer = raw_input_buffer s @ [c], candidates = []\<rparr>]\<rparr>)"
  using assms by (simp add: press_letter_def Let_def get_top_candidates_def simple_seg_def)

lemma press_backspace_failure:
  assumes "current_mode s = Pinyin" and "butlast (input_buffer s) \<noteq> []"
    and "is_pinyin_sequence_prefix (butlast (input_buffer s))"
    and "dag (seg_loop (butlast (input_buffer s)) 0 []) 5 = Inl e"
  shows "press_backspace dag s =
     (RetNone,
      s\<lparr>input_buffer := butlast (input_buffer s),
        raw_input_buffer := butlast (raw_input_buffer s), current_mode := Pinyin,
        current_candidates := [],
        ui_queue := ui_queue s @
          [\<lparr>visible = True, buffer = butlast (input_buffer s), candidates = []\<rparr>]\<rparr>)"
  using assms by (simp add: press_backspace_def Let_def get_top_candidates_def simple_seg_def)

section \<open>The claims\<close>

subsection \<open>C1: Ctrl+Shift\<close>

text \<open>
  C1 says that a shift key pressed while Ctrl is held switches the mode (Pinyin to
  English, English to Pinyin, Unknown to Pinyin), clears the buffers and the candidates,
  and puts a hide message on the queue. The code does all of it but the last: the message
  it puts has \<^verbatim>\<open>visible=(current_mode == "pinyin")\<close>, read after the switch. From the
  initial state, Ctrl then Shift leaves one message on the queue, and it is a visible one.
\<close>

theorem ctrl_shift_shows_popup:
  "current_mode (run demo_dag initial_state [Press Key_ctrl, Press Key_shift]) = Pinyin \<and>
   ui_queue (run demo_dag initial_state [Press Key_ctrl, Press Key_shift]) =
     [\<lparr>visible = True, buffer = [], candidates = []\<rparr>]"
  by (simp add: eval_defs)

text \<open>
  C1, amended: for every state with Ctrl held, a shift key switches the mode (Pinyin to
  English, English to Pinyin, Unknown to Pinyin), clears both buffers and the candidates,
  reports the new mode to the tray updater, and puts one message with an empty buffer and
  no candidates on the queue, which is visible exactly when the new mode is Pinyin (so it
  hides the popup only when the switch goes from Pinyin to English).
\<close>

theorem ctrl_shift_force_switch:
  assumes "ctrl_pressed s" and "key \<in> {Key_shift, Key_shift_l, Key_shift_r}"
  shows "on_press dag s key =
     (RetNone,
      s\<lparr>shift_pressed := True,
        current_mode :=
          (case current_mode s of Pinyin \<Rightarrow> English | English \<Rightarrow> Pinyin | Unknown \<Rightarrow> Pinyin),
        input_buffer := [], raw_input_buffer := [], current_candidates := [],
        ui_queue := ui_queue s @
          [\<lparr>visible = (current_mode s \<noteq> Pinyin), buffer = [], candidates = []\<rparr>],
        tray_updates := tray_updates s @
          [case current_mode s of Pinyin \<Rightarrow> English | English \<Rightarrow> Pinyin | Unknown \<Rightarrow> Pinyin]\<rparr>)"
  using assms by (cases "current_mode s") (auto simp: on_press_def press_shift_def Let_def)

theorem ctrl_shift_force_switch_witness:
  "ctrl_pressed (initial_state\<lparr>ctrl_pressed := True, current_mode := Pinyin\<rparr>) \<and>
   on_press demo_dag (initial_state\<lparr>ctrl_pressed := True, current_mode := Pinyin\<rparr>) Key_shift_l =
     (RetNone,
      initial_state\<lparr>ctrl_pressed := True, shift_pressed := True, current_mode := English,
        ui_queue := [\<lparr>visible = False, buffer = [], candidates = []\<rparr>],
        tray_updates := [English]\<rparr>)"
  using ctrl_shift_force_switch
    [of "initial_state\<lparr>ctrl_pressed := True, current_mode := Pinyin\<rparr>" Key_shift_l demo_dag]
  by (simp add: initial_state_def)

subsection \<open>C2: Space and Enter\<close>

text \<open>
  C2: in a state whose two buffers agree (every reachable state, see C9), Space or Enter
  with a non-empty buffer prints \<^verbatim>\<open>current_candidates[0]\<close> when the mode is Pinyin and
  there is a candidate, and the buffer itself otherwise; afterwards the mode is Unknown,
  both buffers and the candidates are empty, and a hidden message has been put on the
  queue. With an empty buffer the state is returned as it was.
\<close>

theorem space_enter_commit:
  assumes "key \<in> {Key_space, Key_enter}" and "input_buffer s = raw_input_buffer s"
  shows "(raw_input_buffer s \<noteq> [] \<longrightarrow>
            on_press dag s key =
              (RetNone,
               s\<lparr>printed := printed s @
                    [if current_mode s = Pinyin \<and> current_candidates s \<noteq> []
                     then current_candidates s ! 0 else ustr_of (raw_input_buffer s)],
                 input_buffer := [], raw_input_buffer := [], current_candidates := [],
                 current_mode := Unknown,
                 ui_queue := ui_queue s @
                   [\<lparr>visible = False, buffer = [], candidates = []\<rparr>]\<rparr>)) \<and>
         (raw_input_buffer s = [] \<longrightarrow> on_press dag s key = (RetNone, s))"
  using assms by (auto simp: on_press_def press_space_enter_def commit_def Let_def)

theorem space_enter_commit_witness:
  "Key_enter \<in> {Key_space, Key_enter} \<and>
   on_press demo_dag
     (initial_state\<lparr>current_mode := Pinyin, input_buffer := lit ''ni'', raw_input_buffer := lit ''ni'',
        current_candidates := [[20320], [23612]]\<rparr>) Key_enter =
     (RetNone,
      initial_state\<lparr>printed := [[20320]],
        ui_queue := [\<lparr>visible = False, buffer = [], candidates = []\<rparr>]\<rparr>) \<and>
   on_press demo_dag initial_state Key_enter = (RetNone, initial_state)"
  using space_enter_commit
      [of Key_enter
        "initial_state\<lparr>current_mode := Pinyin, input_buffer := lit ''ni'',
           raw_input_buffer := lit ''ni'', current_candidates := [[20320], [23612]]\<rparr>" demo_dag]
    space_enter_commit [of Key_enter initial_state demo_dag]
  by (simp add: initial_state_def lit_def)

subsection \<open>C3: the classifier\<close>

text \<open>
  C3 says that on every non-empty string of Latin letters the classifier answers by the
  lower-cased first character alone. The classifier first requires that every character
  of \<^verbatim>\<open>text.lower()\<close> be a letter, and the Latin letter U+0130 (capital I with a dot
  above) lower-cases to i followed by the combining dot U+0307, which is not a letter.
  So the text n, U+0130 is a text of letters whose first character is the initial n, and
  it is not accepted, while the text n is; typing n and then U+0130 leaves the mode
  English.
\<close>

theorem classifier_rejects_dotted_I:
  "list_all isalpha_c [Latin1 CHR ''n'', Capital_I_dot] \<and>
   lower_c (hd [Latin1 CHR ''n'', Capital_I_dot]) = [Latin1 CHR ''n''] \<and>
   is_pinyin_sequence_prefix [Latin1 CHR ''n''] \<and>
   \<not> is_pinyin_sequence_prefix [Latin1 CHR ''n'', Capital_I_dot] \<and>
   current_mode (run demo_dag initial_state
      [Press (KeyCode (Some (Latin1 CHR ''n''))), Press (KeyCode (Some Capital_I_dot))]) = English"
  by (simp add: eval_defs)

text \<open>
  C3, amended: on a non-empty string of letters \<open>S\<close> the classifier answers \<open>True\<close> (Pinyin)
  exactly when U+0130 does not occur in \<open>S\<close> and the lower-cased first character is one of
  b, p, m, f, d, z, t, n, l, g, k, h, j, q, x, c, s or one of a, e, i, o, u, u-umlaut, v,
  and \<open>False\<close> (English) otherwise; two such strings whose first characters agree up to
  case, and which both contain U+0130 or both do not, get the same answer.
\<close>

theorem classifier_first_letter:
  assumes "S \<noteq> []" and "list_all isalpha_c S"
  shows "is_pinyin_sequence_prefix S =
           (Capital_I_dot \<notin> set S \<and>
            lower_c (hd S) \<in> (\<lambda>c. [Latin1 c]) `
              ({CHR ''b'', CHR ''p'', CHR ''m'', CHR ''f'', CHR ''d'', CHR ''z'', CHR ''t'',
                CHR ''n'', CHR ''l'', CHR ''g'', CHR ''k'', CHR ''h'', CHR ''j'', CHR ''q'',
                CHR ''x'', CHR ''c'', CHR ''s''} \<union>
               {CHR ''a'', CHR ''e'', CHR ''i'', CHR ''o'', CHR ''u'', CHR 0xFC, CHR ''v''})) \<and>
         (\<forall>T. T \<noteq> [] \<and> list_all isalpha_c T \<and> lower_c (hd T) = lower_c (hd S) \<and>
              (Capital_I_dot \<in> set T) = (Capital_I_dot \<in> set S) \<longrightarrow>
              is_pinyin_sequence_prefix T = is_pinyin_sequence_prefix S)"
proof
  have sets: "valid_initials \<union> valid_finals = (\<lambda>c. [Latin1 c]) `
              ({CHR ''b'', CHR ''p'', CHR ''m'', CHR ''f'', CHR ''d'', CHR ''z'', CHR ''t'',
                CHR ''n'', CHR ''l'', CHR ''g'', CHR ''k'', CHR ''h'', CHR ''j'', CHR ''q'',
                CHR ''x'', CHR ''c'', CHR ''s''} \<union>
               {CHR ''a'', CHR ''e'', CHR ''i'', CHR ''o'', CHR ''u'', CHR 0xFC, CHR ''v''})"
    unfolding valid_initials_def valid_finals_def lit_def by auto
  show "is_pinyin_sequence_prefix S =
           (Capital_I_dot \<notin> set S \<and>
            lower_c (hd S) \<in> (\<lambda>c. [Latin1 c]) `
              ({CHR ''b'', CHR ''p'', CHR ''m'', CHR ''f'', CHR ''d'', CHR ''z'', CHR ''t'',
                CHR ''n'', CHR ''l'', CHR ''g'', CHR ''k'', CHR ''h'', CHR ''j'', CHR ''q'',
                CHR ''x'', CHR ''c'', CHR ''s''} \<union>
               {CHR ''a'', CHR ''e'', CHR ''i'', CHR ''o'', CHR ''u'', CHR 0xFC, CHR ''v''}))"
    unfolding is_pinyin_alpha [OF assms] sets ..
  show "\<forall>T. T \<noteq> [] \<and> list_all isalpha_c T \<and> lower_c (hd T) = lower_c (hd S) \<and>
              (Capital_I_dot \<in> set T) = (Capital_I_dot \<in> set S) \<longrightarrow>
              is_pinyin_sequence_prefix T = is_pinyin_sequence_prefix S"
    using assms by (simp add: is_pinyin_alpha)
qed

theorem classifier_first_letter_witness:
  "lit ''Xyz'' \<noteq> [] \<and> list_all isalpha_c (lit ''Xyz'') \<and>
   is_pinyin_sequence_prefix (lit ''Xyz'') \<and>
   lower_c (hd (lit ''Xyz'')) = [Latin1 CHR ''x''] \<and>
   is_pinyin_sequence_prefix (lit ''xi'') = is_pinyin_sequence_prefix (lit ''Xyz'')"
proof -
  have a: "list_all isalpha_c (lit ''Xyz'')" "list_all isalpha_c (lit ''xi'')"
    by (simp_all add: lit_def isalpha_latin1_def)
  have l: "lower_c (hd (lit ''Xyz'')) = [Latin1 CHR ''x'']"
    "lower_c (hd (lit ''xi'')) = [Latin1 CHR ''x'']"
    by (simp_all add: lit_def lower_latin1_def char_of_eq_iff)
  have n: "lit ''Xyz'' \<noteq> []" "lit ''xi'' \<noteq> []"
    "Capital_I_dot \<notin> set (lit ''Xyz'')" "Capital_I_dot \<notin> set (lit ''xi'')"
    by (auto simp: lit_def)
  show ?thesis
    using a l n classifier_first_letter [OF n(1) a(1)] by auto
qed

subsection \<open>C4: a letter, then Backspace\<close>

text \<open>
  C4 says that in every reachable state a letter followed by Backspace restores the mode
  and the buffer. From the initial state (Unknown, empty buffer) the letter w gives the
  mode English, in which Backspace is not handled: the buffer keeps the w. And after
  Ctrl+Shift has forced the mode to English with an empty buffer, the letter n followed
  by Backspace leaves the mode Unknown.
\<close>

theorem backspace_does_not_undo_append:
  "raw_input_buffer initial_state = [] \<and> current_mode initial_state = Unknown \<and>
   raw_input_buffer (run demo_dag initial_state
      [Press (KeyCode (Some (Latin1 CHR ''w''))), Press Key_backspace]) = lit ''w'' \<and>
   current_mode (run demo_dag initial_state
      [Press (KeyCode (Some (Latin1 CHR ''w''))), Press Key_backspace]) = English \<and>
   current_mode (run demo_dag initial_state
      [Press Key_ctrl, Press Key_shift, Press Key_shift]) = English \<and>
   current_mode (run demo_dag initial_state
      [Press Key_ctrl, Press Key_shift, Press Key_shift,
       Press (KeyCode (Some (Latin1 CHR ''n''))), Press Key_backspace]) = Unknown"
  by (simp add: eval_defs)

text \<open>
  C4, amended: let \<open>s\<close> be a reachable state, \<open>c\<close> a letter, \<open>s1\<close> the state after the key
  \<open>c\<close> and \<open>s2\<close> the state after Backspace in \<open>s1\<close>. The mode of \<open>s1\<close> is Pinyin or English.
  If it is Pinyin, both buffers of \<open>s2\<close> are those of \<open>s\<close>, and the mode of \<open>s2\<close> is the mode
  of \<open>s\<close> whenever the buffer of \<open>s\<close> was non-empty or its mode was Unknown. If it is
  English, Backspace changes nothing: \<open>s2\<close> is \<open>s1\<close>.
\<close>

theorem append_then_backspace:
  assumes "s = run dag initial_state evs" and "isalpha_c c"
    and "s1 = snd (on_press dag s (KeyCode (Some c)))"
    and "s2 = snd (on_press dag s1 Key_backspace)"
  shows "(current_mode s1 = Pinyin \<or> current_mode s1 = English) \<and>
         (current_mode s1 = Pinyin \<longrightarrow>
            raw_input_buffer s2 = raw_input_buffer s \<and> input_buffer s2 = input_buffer s \<and>
            (raw_input_buffer s \<noteq> [] \<or> current_mode s = Unknown \<longrightarrow>
               current_mode s2 = current_mode s)) \<and>
         (current_mode s1 = English \<longrightarrow> s2 = s1)"
proof -
  have ok: "buffers_ok s" unfolding assms(1) by (rule buffers_ok_reachable)
  then have eq: "input_buffer s = raw_input_buffer s"
    and cl: "raw_input_buffer s \<noteq> [] \<Longrightarrow>
       current_mode s =
         (if is_pinyin_sequence_prefix (raw_input_buffer s) then Pinyin else English)"
    by (auto simp: buffers_ok_def)
  have s1: "s1 = snd (press_letter dag s c)"
    using assms(2,3) by (simp add: on_press_keycode)
  have m1: "current_mode s1 = Pinyin \<or> current_mode s1 = English"
    unfolding s1 by (simp add: press_letter_def Let_def)
  have en: "current_mode s1 = English \<longrightarrow> s2 = s1"
    unfolding assms(4) by (simp add: on_press_backspace)
  have py: "current_mode s1 = Pinyin \<longrightarrow>
           raw_input_buffer s2 = raw_input_buffer s \<and> input_buffer s2 = input_buffer s \<and>
           (raw_input_buffer s \<noteq> [] \<or> current_mode s = Unknown \<longrightarrow>
              current_mode s2 = current_mode s)"
  proof
    assume p: "current_mode s1 = Pinyin"
    have b1: "input_buffer s1 = raw_input_buffer s @ [c]"
      "raw_input_buffer s1 = raw_input_buffer s @ [c]"
      unfolding s1 by (simp_all add: press_letter_def Let_def)
    have s2: "s2 = snd (press_backspace dag s1)"
      unfolding assms(4) using p b1 by (simp add: on_press_backspace)
    have r: "raw_input_buffer s2 = raw_input_buffer s" "input_buffer s2 = raw_input_buffer s"
      unfolding s2 using b1 by (simp_all add: press_backspace_def Let_def)
    have m: "current_mode s2 =
        (if raw_input_buffer s \<noteq> [] then
           (if is_pinyin_sequence_prefix (raw_input_buffer s) then Pinyin else English)
         else Unknown)"
      unfolding s2 using b1 by (simp add: press_backspace_def Let_def)
    show "raw_input_buffer s2 = raw_input_buffer s \<and> input_buffer s2 = input_buffer s \<and>
           (raw_input_buffer s \<noteq> [] \<or> current_mode s = Unknown \<longrightarrow>
              current_mode s2 = current_mode s)"
      using r m eq cl by auto
  qed
  show ?thesis using m1 py en by blast
qed

theorem append_then_backspace_witness:
  "isalpha_c (Latin1 CHR ''i'') \<and>
   current_mode (snd (on_press demo_dag
      (run demo_dag initial_state [Press (KeyCode (Some (Latin1 CHR ''n'')))])
      (KeyCode (Some (Latin1 CHR ''i''))))) = Pinyin \<and>
   raw_input_buffer (snd (on_press demo_dag
      (snd (on_press demo_dag
         (run demo_dag initial_state [Press (KeyCode (Some (Latin1 CHR ''n'')))])
         (KeyCode (Some (Latin1 CHR ''i'')))))
      Key_backspace)) = lit ''n'' \<and>
   current_mode (snd (on_press demo_dag
      (snd (on_press demo_dag
         (run demo_dag initial_state [Press (KeyCode (Some (Latin1 CHR ''n'')))])
         (KeyCode (Some (Latin1 CHR ''i'')))))
      Key_backspace)) = Pinyin"
proof -
  have a: "isalpha_c (Latin1 CHR ''i'')" by (simp add: isalpha_latin1_def)
  have s: "raw_input_buffer (run demo_dag initial_state [Press (KeyCode (Some (Latin1 CHR ''n'')))]) = lit ''n''"
    "current_mode (run demo_dag initial_state [Press (KeyCode (Some (Latin1 CHR ''n'')))]) = Pinyin"
    by (simp_all add: eval_defs)
  have p: "current_mode (snd (on_press demo_dag
      (run demo_dag initial_state [Press (KeyCode (Some (Latin1 CHR ''n'')))])
      (KeyCode (Some (Latin1 CHR ''i''))))) = Pinyin"
    by (simp add: eval_defs)
  show ?thesis
    using a s p
      append_then_backspace
        [OF refl a refl refl, of demo_dag "[Press (KeyCode (Some (Latin1 CHR ''n'')))]"]
    by (simp add: lit_def)
qed

subsection \<open>C5: the digit keys\<close>

text \<open>
  C5: for a digit key \<open>k\<close> (a character 0 to 9), \<^verbatim>\<open>on_press\<close> prints
  \<^verbatim>\<open>current_candidates[k-1]\<close> and resets the state (mode Unknown, buffers and candidates
  empty, a hidden message on the queue) if the mode is Pinyin, there are at least \<open>k\<close>
  candidates and \<open>k\<close> is between 1 and 5; in every other case it returns the state as it
  was. The two outcomes differ, so the key commits exactly under that condition.
\<close>

theorem digit_key_selects:
  assumes "c \<in> set (lit ''0123456789'')"
  shows "on_press dag s (KeyCode (Some c)) =
     (if current_mode s = Pinyin \<and> nat (int_of_digit c) \<le> length (current_candidates s) \<and>
         nat (int_of_digit c) \<in> {1..5}
      then (RetNone,
            s\<lparr>printed := printed s @ [current_candidates s ! (nat (int_of_digit c) - 1)],
              input_buffer := [], raw_input_buffer := [], current_candidates := [],
              current_mode := Unknown,
              ui_queue := ui_queue s @ [\<lparr>visible = False, buffer = [], candidates = []\<rparr>]\<rparr>)
      else (RetNone, s)) \<and>
     ((on_press dag s (KeyCode (Some c)) \<noteq> (RetNone, s)) =
      (current_mode s = Pinyin \<and> nat (int_of_digit c) \<le> length (current_candidates s) \<and>
         nat (int_of_digit c) \<in> {1..5}))"
proof -
  note f = digit_facts [OF assms]
  have idx: "nat (int_of_digit c - 1) = nat (int_of_digit c) - 1"
    by (simp add: nat_diff_distrib')
  have ch: "\<And>out. s\<lparr>printed := printed s @ [out],
              input_buffer := [], raw_input_buffer := [], current_candidates := [],
              current_mode := Unknown,
              ui_queue := ui_queue s @ [\<lparr>visible = False, buffer = [], candidates = []\<rparr>]\<rparr> \<noteq> s"
    using commit_changes [of s] by (simp add: commit_def)
  show ?thesis
  proof (cases "1 \<le> int_of_digit c \<and> int_of_digit c \<le> 5")
    case True
    then have "c \<in> set (lit ''12345'')" using f(4) by blast
    then have "on_press dag s (KeyCode (Some c)) = press_digit s c"
      using f(1,2) by (simp add: on_press_keycode)
    moreover have "(current_candidates s \<noteq> [] \<and>
          int_of_digit c - 1 < int (length (current_candidates s)))
        = (nat (int_of_digit c) \<le> length (current_candidates s))"
      using True by (cases "current_candidates s") auto
    moreover have "nat (int_of_digit c) \<in> {1..5}" using True by auto
    ultimately show ?thesis
      using ch by (simp add: press_digit_eq commit_def idx)
  next
    case False
    then have "c \<notin> set (lit ''12345'')" using f(4) by blast
    then have "on_press dag s (KeyCode (Some c)) = (RetNone, s)"
      using f(1) by (simp add: on_press_keycode)
    moreover have "nat (int_of_digit c) \<notin> {1..5}" using False f(3) by auto
    ultimately show ?thesis by auto
  qed
qed

theorem digit_key_selects_witness:
  "Latin1 CHR ''2'' \<in> set (lit ''0123456789'') \<and>
   on_press demo_dag
     (initial_state\<lparr>current_mode := Pinyin, input_buffer := lit ''ni'', raw_input_buffer := lit ''ni'',
        current_candidates := [[20320], [23612]]\<rparr>) (KeyCode (Some (Latin1 CHR ''2''))) =
     (RetNone,
      initial_state\<lparr>printed := [[23612]],
        ui_queue := [\<lparr>visible = False, buffer = [], candidates = []\<rparr>]\<rparr>) \<and>
   on_press demo_dag
     (initial_state\<lparr>current_mode := Pinyin, input_buffer := lit ''ni'', raw_input_buffer := lit ''ni'',
        current_candidates := [[20320], [23612]]\<rparr>) (KeyCode (Some (Latin1 CHR ''3''))) =
     (RetNone,
      initial_state\<lparr>current_mode := Pinyin, input_buffer := lit ''ni'', raw_input_buffer := lit ''ni'',
        current_candidates := [[20320], [23612]]\<rparr>)"
proof -
  have d: "int_of_digit (Latin1 CHR ''2'') = 2" "int_of_digit (Latin1 CHR ''3'') = 3"
    by (simp_all add: int_of_digit_def)
  have m: "Latin1 CHR ''2'' \<in> set (lit ''0123456789'')"
    "Latin1 CHR ''3'' \<in> set (lit ''0123456789'')"
    by (simp_all add: lit_def)
  show ?thesis
    using m digit_key_selects
        [of "Latin1 CHR ''2''" demo_dag
          "initial_state\<lparr>current_mode := Pinyin, input_buffer := lit ''ni'',
             raw_input_buffer := lit ''ni'', current_candidates := [[20320], [23612]]\<rparr>"]
      digit_key_selects
        [of "Latin1 CHR ''3''" demo_dag
          "initial_state\<lparr>current_mode := Pinyin, input_buffer := lit ''ni'',
             raw_input_buffer := lit ''ni'', current_candidates := [[20320], [23612]]\<rparr>"]
    by (simp add: d initial_state_def)
qed

subsection \<open>C6: the candidate lookup\<close>

text \<open>
  C6: the loop of \<^verbatim>\<open>simple_seg\<close> computes the chunks of the specification (two characters
  from the left, one last character when the length is odd; for \<^verbatim>\<open>nihao\<close> the chunks
  \<^verbatim>\<open>ni\<close>, \<^verbatim>\<open>ha\<close>, \<^verbatim>\<open>o\<close>), whose concatenation is the input. For a non-empty input
  the lookup hands these chunks to \<^verbatim>\<open>dag\<close>, joins each returned path into one string and
  returns the slice \<^verbatim>\<open>[:top_k]\<close> of them; an exception of \<^verbatim>\<open>dag\<close> gives the empty list,
  and so does the empty input. For a count \<^verbatim>\<open>top_k\<close> (an integer that is not negative) the
  slice is the first \<^verbatim>\<open>top_k\<close> elements, and the lookup returns at most \<^verbatim>\<open>top_k\<close>
  candidates for every input.
\<close>

theorem lookup_chunks_and_bound:
  "seg_loop s 0 [] = spec_chunks s \<and>
   concat (seg_loop s 0 []) = s \<and>
   seg_loop (lit ''nihao'') 0 [] = [lit ''ni'', lit ''ha'', lit ''o''] \<and>
   (s \<noteq> [] \<longrightarrow>
      get_top_candidates dag s top_k =
        (case dag (spec_chunks s) top_k of
           Inl e \<Rightarrow> []
         | Inr result \<Rightarrow> slice_to top_k (map (\<lambda>item. concat (path item)) result))) \<and>
   (s = [] \<longrightarrow> get_top_candidates dag s top_k = []) \<and>
   (0 \<le> top_k \<longrightarrow>
      (s \<noteq> [] \<longrightarrow>
         get_top_candidates dag s top_k =
           (case dag (spec_chunks s) top_k of
              Inl e \<Rightarrow> []
            | Inr result \<Rightarrow> take (nat top_k) (map (\<lambda>item. concat (path item)) result))) \<and>
      int (length (get_top_candidates dag s top_k)) \<le> top_k)"
proof -
  have a: "\<And>t. seg_loop t 0 [] = spec_chunks t" using seg_loop_spec [of 0 _ "[]"] by simp
  have b: "concat (spec_chunks s) = s"
    by (induction s rule: spec_chunks.induct) simp_all
  have c: "seg_loop (lit ''nihao'') 0 [] = [lit ''ni'', lit ''ha'', lit ''o'']"
    by (simp add: a lit_def)
  have d: "0 \<le> top_k \<longrightarrow>
      (s \<noteq> [] \<longrightarrow>
         get_top_candidates dag s top_k =
           (case dag (spec_chunks s) top_k of
              Inl e \<Rightarrow> []
            | Inr result \<Rightarrow> take (nat top_k) (map (\<lambda>item. concat (path item)) result))) \<and>
      int (length (get_top_candidates dag s top_k)) \<le> top_k"
    by (auto simp: get_top_candidates_def simple_seg_def slice_to_def a split: sum.splits)
  show ?thesis using a b c d by (simp add: get_top_candidates_def simple_seg_def)
qed

theorem lookup_chunks_and_bound_witness:
  "lit ''ni'' \<noteq> [] \<and> (0::int) \<le> 1 \<and> seg_loop (lit ''ni'') 0 [] = [lit ''ni''] \<and>
   get_top_candidates demo_dag (lit ''ni'') 1 = [[20320]] \<and>
   int (length (get_top_candidates demo_dag (lit ''ni'') 1)) \<le> 1"
  using lookup_chunks_and_bound [of "lit ''ni''" demo_dag 1]
  by (simp add: demo_dag_def slice_to_def lit_def)

subsection \<open>C7: a failing lookup\<close>

text \<open>
  C7: for every library \<open>dag\<close>, whichever of its calls raise: when it raises on the chunks
  of the input, \<^verbatim>\<open>simple_seg\<close> and \<^verbatim>\<open>get_top_candidates\<close> return the empty list; every
  key press and every run of the listener gives exactly the state given by the library
  that returns no path where \<open>dag\<close> raises, so that no exception reaches the state machine;
  and a letter key or a Backspace whose lookup raises gives the state that the key gives
  otherwise, in mode Pinyin with the new buffer, with an empty candidate list and a
  visible message without candidates.
\<close>

theorem lookup_failure_contained:
  "(dag (seg_loop p 0 []) k = Inl e \<longrightarrow>
      simple_seg dag p k = [] \<and> get_top_candidates dag p k = []) \<and>
   on_press dag s key = on_press (sanitize dag) s key \<and>
   run dag s evs = run (sanitize dag) s evs \<and>
   (isalpha_c c \<and> is_pinyin_sequence_prefix (raw_input_buffer s @ [c]) \<and>
    dag (seg_loop (raw_input_buffer s @ [c]) 0 []) 5 = Inl e \<longrightarrow>
      on_press dag s (KeyCode (Some c)) =
        (RetNone,
         s\<lparr>raw_input_buffer := raw_input_buffer s @ [c], current_mode := Pinyin,
           input_buffer := raw_input_buffer s @ [c],
           tray_updates :=
             (if current_mode s = Pinyin then tray_updates s else tray_updates s @ [Pinyin]),
           current_candidates := [],
           ui_queue := ui_queue s @
             [\<lparr>visible = True, buffer = raw_input_buffer s @ [c], candidates = []\<rparr>]\<rparr>)) \<and>
   (current_mode s = Pinyin \<and> butlast (input_buffer s) \<noteq> [] \<and>
    is_pinyin_sequence_prefix (butlast (input_buffer s)) \<and>
    dag (seg_loop (butlast (input_buffer s)) 0 []) 5 = Inl e \<longrightarrow>
      on_press dag s Key_backspace =
        (RetNone,
         s\<lparr>input_buffer := butlast (input_buffer s),
           raw_input_buffer := butlast (raw_input_buffer s), current_mode := Pinyin,
           current_candidates := [],
           ui_queue := ui_queue s @
             [\<lparr>visible = True, buffer = butlast (input_buffer s), candidates = []\<rparr>]\<rparr>))"
  (is "?A \<and> ?B \<and> ?C \<and> ?D \<and> ?E")
proof -
  have a: ?A by (simp add: get_top_candidates_def simple_seg_fail)
  have b: ?B by (simp add: on_press_sanitize)
  have c: ?C by (simp add: run_sanitize)
  have d: ?D by (auto simp: on_press_keycode press_letter_failure)
  have e: ?E
  proof
    assume h: "current_mode s = Pinyin \<and> butlast (input_buffer s) \<noteq> [] \<and>
      is_pinyin_sequence_prefix (butlast (input_buffer s)) \<and>
      dag (seg_loop (butlast (input_buffer s)) 0 []) 5 = Inl e"
    then have "input_buffer s \<noteq> []" by auto
    with h show "on_press dag s Key_backspace =
        (RetNone,
         s\<lparr>input_buffer := butlast (input_buffer s),
           raw_input_buffer := butlast (raw_input_buffer s), current_mode := Pinyin,
           current_candidates := [],
           ui_queue := ui_queue s @
             [\<lparr>visible = True, buffer = butlast (input_buffer s), candidates = []\<rparr>]\<rparr>)"
      by (simp add: on_press_backspace press_backspace_failure)
  qed
  show ?thesis using a b c d e by blast
qed

theorem lookup_failure_contained_witness:
  "demo_dag (seg_loop (lit ''nih'') 0 []) 5 = Inl DagException \<and>
   get_top_candidates demo_dag (lit ''nih'') 5 = [] \<and>
   isalpha_c (Latin1 CHR ''h'') \<and> is_pinyin_sequence_prefix (lit ''nih'') \<and>
   on_press demo_dag
     (initial_state\<lparr>current_mode := Pinyin, input_buffer := lit ''ni'',
        raw_input_buffer := lit ''ni'', current_candidates := [[20320], [23612]]\<rparr>)
     (KeyCode (Some (Latin1 CHR ''h''))) =
     (RetNone,
      initial_state\<lparr>current_mode := Pinyin, input_buffer := lit ''nih'',
        raw_input_buffer := lit ''nih'',
        ui_queue := [\<lparr>visible = True, buffer = lit ''nih'', candidates = []\<rparr>]\<rparr>) \<and>
   on_press demo_dag
     (initial_state\<lparr>current_mode := Pinyin, input_buffer := lit ''niha'',
        raw_input_buffer := lit ''niha'', current_candidates := [[20320]]\<rparr>)
     Key_backspace =
     (RetNone,
      initial_state\<lparr>current_mode := Pinyin, input_buffer := lit ''nih'',
        raw_input_buffer := lit ''nih'',
        ui_queue := [\<lparr>visible = True, buffer = lit ''nih'', candidates = []\<rparr>]\<rparr>)"
proof -
  have f: "demo_dag (seg_loop (lit ''nih'') 0 []) 5 = Inl DagException"
    by (simp add: demo_dag_def seg_loop.simps lit_def)
  have l: "isalpha_c (Latin1 CHR ''h'')" "is_pinyin_sequence_prefix (lit ''nih'')"
    by (simp_all add: eval_defs)
  have u: "lit ''ni'' @ [Latin1 CHR ''h''] = lit ''nih''" "butlast (lit ''niha'') = lit ''nih''"
    "lit ''nih'' \<noteq> []"
    by (simp_all add: lit_def)
  show ?thesis
    using f l u
      lookup_failure_contained
        [of demo_dag "lit ''nih''" 5 DagException
          "initial_state\<lparr>current_mode := Pinyin, input_buffer := lit ''ni'',
             raw_input_buffer := lit ''ni'', current_candidates := [[20320], [23612]]\<rparr>"
          Key_other "[]" "Latin1 CHR ''h''"]
      lookup_failure_contained
        [of demo_dag "lit ''nih''" 5 DagException
          "initial_state\<lparr>current_mode := Pinyin, input_buffer := lit ''niha'',
             raw_input_buffer := lit ''niha'', current_candidates := [[20320]]\<rparr>"
          Key_other "[]" "Latin1 CHR ''h''"]
    by (simp add: initial_state_def)
qed

subsection \<open>C8: candidates only in Pinyin mode\<close>

text \<open>
  C8: in every state reached from the initial state by key events, whatever the library
  returns, the candidate list is non-empty only if the mode is Pinyin and the buffer is
  non-empty.
\<close>

theorem candidates_only_in_pinyin:
  "current_candidates (run dag initial_state evs) \<noteq> [] \<longrightarrow>
     current_mode (run dag initial_state evs) = Pinyin \<and>
     raw_input_buffer (run dag initial_state evs) \<noteq> []"
  using buffers_ok_reachable [of dag evs] by (auto simp: buffers_ok_def)

theorem candidates_only_in_pinyin_witness:
  "current_candidates (run demo_dag initial_state [Press (KeyCode (Some (Latin1 CHR ''n'')))]) \<noteq> [] \<and>
   current_mode (run demo_dag initial_state [Press (KeyCode (Some (Latin1 CHR ''n'')))]) = Pinyin \<and>
   raw_input_buffer (run demo_dag initial_state [Press (KeyCode (Some (Latin1 CHR ''n'')))]) \<noteq> []"
proof -
  have "current_candidates (run demo_dag initial_state [Press (KeyCode (Some (Latin1 CHR ''n'')))]) \<noteq> []"
    by (simp add: eval_defs)
  then show ?thesis
    using candidates_only_in_pinyin [of demo_dag "[Press (KeyCode (Some (Latin1 CHR ''n'')))]"]
    by blast
qed

subsection \<open>C9: the two buffers agree\<close>

text \<open>
  C9: in every state reached from the initial state by key events, \<^verbatim>\<open>input_buffer\<close> and
  \<^verbatim>\<open>raw_input_buffer\<close> are equal.
\<close>

theorem buffers_agree:
  "input_buffer (run dag initial_state evs) = raw_input_buffer (run dag initial_state evs)"
  using buffers_ok_reachable [of dag evs] by (simp add: buffers_ok_def)

theorem buffers_agree_witness:
  "input_buffer (run demo_dag initial_state
      [Press (KeyCode (Some (Latin1 CHR ''n''))), Press (KeyCode (Some (Latin1 CHR ''i''))), Press Key_backspace]) = lit ''n'' \<and>
   raw_input_buffer (run demo_dag initial_state
      [Press (KeyCode (Some (Latin1 CHR ''n''))), Press (KeyCode (Some (Latin1 CHR ''i''))), Press Key_backspace]) = lit ''n''"
proof -
  have "raw_input_buffer (run demo_dag initial_state
      [Press (KeyCode (Some (Latin1 CHR ''n''))), Press (KeyCode (Some (Latin1 CHR ''i''))), Press Key_backspace]) = lit ''n''"
    by (simp add: eval_defs)
  then show ?thesis
    using buffers_agree [of demo_dag
      "[Press (KeyCode (Some (Latin1 CHR ''n''))), Press (KeyCode (Some (Latin1 CHR ''i''))), Press Key_backspace]"]
    by (simp del: run.simps)
qed

subsection \<open>C10: Backspace never gives English\<close>

lemma backspace_mode:
  assumes ok: "buffers_ok s" and m: "current_mode s = Pinyin" and ne: "raw_input_buffer s \<noteq> []"
  shows "current_mode (snd (on_press dag s Key_backspace)) =
           (if butlast (raw_input_buffer s) \<noteq> [] then Pinyin else Unknown)"
proof -
  from ok have eq: "input_buffer s = raw_input_buffer s"
    and al: "list_all isalpha_c (raw_input_buffer s)"
    and cl: "is_pinyin_sequence_prefix (raw_input_buffer s)"
    using m ne by (auto simp: buffers_ok_def split: if_splits)
  have fst: "lower_c (hd (raw_input_buffer s)) \<in> valid_initials \<union> valid_finals"
    and nd: "Capital_I_dot \<notin> set (raw_input_buffer s)"
    using cl is_pinyin_alpha [OF ne al] by simp_all
  have bl: "butlast (raw_input_buffer s) \<noteq> [] \<Longrightarrow>
       is_pinyin_sequence_prefix (butlast (raw_input_buffer s))"
  proof -
    assume b: "butlast (raw_input_buffer s) \<noteq> []"
    have "hd (butlast (raw_input_buffer s)) = hd (raw_input_buffer s)"
      using b by (cases "raw_input_buffer s") (auto split: if_splits)
    moreover have "Capital_I_dot \<notin> set (butlast (raw_input_buffer s))"
      using nd by (auto dest: in_set_butlastD)
    ultimately show ?thesis
      using fst is_pinyin_alpha [OF b list_all_butlast [OF al]] by simp
  qed
  show ?thesis using m ne eq bl
    by (auto simp: on_press_backspace press_backspace_def Let_def)
qed

text \<open>
  C10: in every state reached from the initial state by key events whose mode is Pinyin
  and whose buffer is non-empty, Backspace gives the mode Pinyin if the shortened buffer
  is non-empty and Unknown if it is empty; it never gives English. (In such a state the
  mode Pinyin was set by the classifier from the first character, which Backspace keeps.)
\<close>

theorem backspace_never_english:
  "current_mode (run dag initial_state evs) = Pinyin \<and>
   raw_input_buffer (run dag initial_state evs) \<noteq> [] \<longrightarrow>
     current_mode (snd (on_press dag (run dag initial_state evs) Key_backspace)) =
       (if butlast (raw_input_buffer (run dag initial_state evs)) \<noteq> [] then Pinyin
        else Unknown) \<and>
     current_mode (snd (on_press dag (run dag initial_state evs) Key_backspace)) \<noteq> English"
  using backspace_mode [OF buffers_ok_reachable, of dag evs dag] by auto

theorem backspace_never_english_witness:
  "current_mode (run demo_dag initial_state
      [Press (KeyCode (Some (Latin1 CHR ''n''))), Press (KeyCode (Some (Latin1 CHR ''i'')))]) = Pinyin \<and>
   raw_input_buffer (run demo_dag initial_state
      [Press (KeyCode (Some (Latin1 CHR ''n''))), Press (KeyCode (Some (Latin1 CHR ''i'')))]) = lit ''ni'' \<and>
   current_mode (snd (on_press demo_dag (run demo_dag initial_state
      [Press (KeyCode (Some (Latin1 CHR ''n''))), Press (KeyCode (Some (Latin1 CHR ''i'')))]) Key_backspace)) = Pinyin"
proof -
  have a: "current_mode (run demo_dag initial_state
      [Press (KeyCode (Some (Latin1 CHR ''n''))), Press (KeyCode (Some (Latin1 CHR ''i'')))]) = Pinyin"
    "raw_input_buffer (run demo_dag initial_state
      [Press (KeyCode (Some (Latin1 CHR ''n''))), Press (KeyCode (Some (Latin1 CHR ''i'')))]) = lit ''ni''"
    by (simp_all add: eval_defs)
  show ?thesis
    using a backspace_never_english
      [of demo_dag
        "[Press (KeyCode (Some (Latin1 CHR ''n''))), Press (KeyCode (Some (Latin1 CHR ''i'')))]"]
    by (simp del: run.simps add: lit_def)
qed

end
